theory Spec2Isabelle
  imports Complex_Main "HOL-Library.Log_Nat"
begin

section \<open>The file-sharing backend of \<^verbatim>\<open>app.js\<close>\<close>

text \<open>
  The server keeps two Mongoose collections (\<^verbatim>\<open>User\<close>, \<^verbatim>\<open>File\<close>) and a directory
  \<^verbatim>\<open>uploads/\<close> on disk. Each route handler is modelled as a function from the state
  before the request to a response and the state after it. What the handlers obtain from
  outside (bcrypt, jsonwebtoken, \<^verbatim>\<open>fs.unlinkSync\<close>, \<^verbatim>\<open>Math.random\<close>, \<^verbatim>\<open>Date.now\<close>) is an
  argument of the model.

  Scope of the model: the path parameter of \<^verbatim>\<open>/download/:id\<close> is the string of the
  request, which Mongoose casts to an ObjectId or rejects; the path parameter of
  \<^verbatim>\<open>/delete/:id\<close> and the \<^verbatim>\<open>id\<close> of a token payload are taken after that cast. The
  bodies of \<^verbatim>\<open>/register\<close> and \<^verbatim>\<open>/login\<close> carry two strings, and
  \<^verbatim>\<open>process.env.JWT_SECRET\<close> is set.
\<close>

subsection \<open>Values, documents and the state\<close>

type_synonym ObjectId = nat

datatype json =
    JNull
  | JBool bool
  | JNum int
  | JStr string
  | JId ObjectId   \<comment> \<open>an ObjectId, serialised as its hex string\<close>
  | JDate nat      \<comment> \<open>a Date (milliseconds), serialised as its ISO string\<close>
  | JArr "json list"
  | JObj "(string \<times> json) list"

text \<open>The schema \<^verbatim>\<open>userSchema\<close>: \<^verbatim>\<open>{username: String, password: String}\<close>, plus \<^verbatim>\<open>_id\<close>.\<close>

record User =
  user_id :: ObjectId
  username :: string
  password :: string

text \<open>
  The schema \<^verbatim>\<open>fileSchema\<close>. The path \<^verbatim>\<open>code\<close> is kept optional, as every Mongoose
  path is (\<open>None\<close> is JavaScript's \<^verbatim>\<open>undefined\<close>), because the download gate compares it
  with a request field that may be absent too.
\<close>

record File =
  file_id :: ObjectId
  filename :: string
  filepath :: string
  uploadedBy :: ObjectId
  code :: "string option"
  uploadedAt :: nat

type_synonym disk = "string \<rightharpoonup> string"

record db =
  Users :: "User list"
  Files :: "File list"
  uploads :: disk          \<comment> \<open>the files on disk: path to content\<close>
  next_id :: ObjectId      \<comment> \<open>the ObjectId that the next \<^verbatim>\<open>new Model(...)\<close> gets\<close>

definition init_db :: db where
  "init_db = \<lparr>Users = [], Files = [], uploads = Map.empty, next_id = 0\<rparr>"

datatype exn =
    TypeError string   \<comment> \<open>reading a property of \<^verbatim>\<open>undefined\<close>\<close>
  | FsError string     \<comment> \<open>an error of the file system, by its code\<close>
  | CastError string   \<comment> \<open>Mongoose cannot cast the value to an ObjectId\<close>

datatype response =
    Json nat json      \<comment> \<open>\<^verbatim>\<open>res.status(n).json(body)\<close>; \<^verbatim>\<open>res.json(body)\<close> is status 200\<close>
  | Download string string
      \<comment> \<open>\<^verbatim>\<open>res.download(path)\<close> sends the file at the path: the path and the content\<close>
  | NextError exn
      \<comment> \<open>\<^verbatim>\<open>res.download(path)\<close> cannot read the file and hands its error to \<^verbatim>\<open>next\<close>;
         for ENOENT the error handler of Express answers 404\<close>
  | Throws exn         \<comment> \<open>the async handler rejects without writing a response\<close>

definition error_body :: "string \<Rightarrow> json" where
  "error_body msg = JObj [(''error'', JStr msg)]"

definition message_body :: "string \<Rightarrow> json" where
  "message_body msg = JObj [(''message'', JStr msg)]"

subsection \<open>The libraries\<close>

text \<open>
  The functions of bcrypt, jsonwebtoken and fs that the handlers call. \<open>bcrypt_hash\<close> takes
  the password and the salt it draws (the cost is the constant 10); \<open>jwt_sign\<close> takes the
  \<^verbatim>\<open>id\<close> of the payload, the time of issue and the secret; \<open>jwt_verify\<close> takes the token
  and the secret and returns the \<^verbatim>\<open>id\<close> of the decoded payload, \<open>None\<close> when it throws;
  \<open>unlinkSync\<close> returns the disk without the file, or what it throws. \<open>castObjectId\<close>
  is the cast that a Mongoose query applies to a string given for \<^verbatim>\<open>_id\<close>: the
  ObjectId, or \<open>None\<close> when the query rejects with a CastError.
\<close>

record libs =
  bcrypt_hash :: "string \<Rightarrow> nat \<Rightarrow> string"
  bcrypt_compare :: "string \<Rightarrow> string \<Rightarrow> bool"
  jwt_sign :: "ObjectId \<Rightarrow> nat \<Rightarrow> string \<Rightarrow> string"
  jwt_verify :: "string \<Rightarrow> string \<Rightarrow> ObjectId option"
  unlinkSync :: "string \<Rightarrow> disk \<Rightarrow> exn + disk"
  castObjectId :: "string \<Rightarrow> ObjectId option"

subsection \<open>Strings and numbers of JavaScript\<close>

text \<open>\<^verbatim>\<open>s.split(c)\<close> for a one-character separator.\<close>

fun split :: "char \<Rightarrow> string \<Rightarrow> string list" where
  "split c [] = [[]]"
| "split c (x # xs) =
     (if x = c then [] # split c xs
      else (case split c xs of [] \<Rightarrow> [[x]] | w # ws \<Rightarrow> (x # w) # ws))"

text \<open>\<^verbatim>\<open>xs[i]\<close>: \<^verbatim>\<open>undefined\<close> out of range.\<close>

fun index :: "'a list \<Rightarrow> nat \<Rightarrow> 'a option" where
  "index [] i = None"
| "index (x # xs) 0 = Some x"
| "index (x # xs) (Suc i) = index xs i"

definition digit_char :: "nat \<Rightarrow> char" where
  "digit_char d = ''0123456789'' ! d"

text \<open>The decimal digits of a natural number, and \<^verbatim>\<open>toString()\<close> of an integral Number.\<close>

function dec :: "nat \<Rightarrow> string" where
  "dec n = (if n < 10 then [digit_char n] else dec (n div 10) @ [digit_char (n mod 10)])"
  by pat_completeness auto
termination
  by (relation "measure id") auto

declare dec.simps [simp del]

definition toString :: "int \<Rightarrow> string" where
  "toString i = (if i < 0 then CHR ''-'' # dec (nat (- i)) else dec (nat i))"

text \<open>The integer that a string of decimal digits denotes.\<close>

definition digit_val :: "char \<Rightarrow> nat" where
  "digit_val c = of_char c - 48"

definition parseInt :: "string \<Rightarrow> nat" where
  "parseInt s = foldl (\<lambda>a c. 10 * a + digit_val c) 0 s"

text \<open>
  A Number that is finite is modelled by the rational it denotes. The arithmetic is that
  of IEEE 754 binary64: the exact result, rounded to the nearest double, ties to the even
  significand. \<open>ilog2 x\<close> is the binary exponent of a positive \<open>x\<close> and \<open>ulp x\<close> the
  distance between the doubles around it (constant below \<open>2 powi (- 1022)\<close>, where the
  doubles are subnormal). Overflow to \<^verbatim>\<open>Infinity\<close> is left out: the model is that of the
  results below \<open>2 ^ 1024\<close>.
\<close>

definition ilog2 :: "rat \<Rightarrow> int" where
  "ilog2 x = (if 1 \<le> x then bitlen \<lfloor>x\<rfloor> - 1 else - bitlen (\<lceil>1 / x\<rceil> - 1))"

text \<open>The nearest integer, ties to even.\<close>

definition rne :: "rat \<Rightarrow> int" where
  "rne y = (let f = \<lfloor>y\<rfloor>; d = y - of_int f
            in if d < 1 / 2 then f else if 1 / 2 < d then f + 1
               else if even f then f else f + 1)"

definition ulp :: "rat \<Rightarrow> rat" where
  "ulp x = 2 powi (max (ilog2 x) (- 1022) - 52)"

definition round_double :: "rat \<Rightarrow> rat" where
  "round_double x =
     (if x = 0 then 0 else sgn x * (ulp \<bar>x\<bar> * of_int (rne (\<bar>x\<bar> / ulp \<bar>x\<bar>))))"

definition is_double :: "rat \<Rightarrow> bool" where
  "is_double x \<longleftrightarrow> round_double x = x"

text \<open>\<^verbatim>\<open>x * y\<close> and \<^verbatim>\<open>x + y\<close> on Numbers.\<close>

definition js_mul :: "rat \<Rightarrow> rat \<Rightarrow> rat" where
  "js_mul x y = round_double (x * y)"

definition js_add :: "rat \<Rightarrow> rat \<Rightarrow> rat" where
  "js_add x y = round_double (x + y)"

text \<open>
  \<^verbatim>\<open>Math.floor(100000 + Math.random() * 900000).toString()\<close>, as a function of the value
  \<open>r\<close> that \<^verbatim>\<open>Math.random()\<close> returns.
\<close>

definition generate :: "rat \<Rightarrow> string" where
  "generate r = toString \<lfloor>js_add 100000 (js_mul r 900000)\<rfloor>"

subsection \<open>Mongoose queries\<close>

text \<open>\<^verbatim>\<open>Model.findOne(filter)\<close>: the first document, in insertion order, that matches.\<close>

fun findOne :: "('a \<Rightarrow> bool) \<Rightarrow> 'a list \<Rightarrow> 'a option" where
  "findOne P [] = None"
| "findOne P (x # xs) = (if P x then Some x else findOne P xs)"

definition findById :: "ObjectId \<Rightarrow> File list \<Rightarrow> File option" where
  "findById i fs = findOne (\<lambda>f. file_id f = i) fs"

text \<open>\<^verbatim>\<open>Model.find(filter)\<close>: all the documents that match.\<close>

definition find_all :: "('a \<Rightarrow> bool) \<Rightarrow> 'a list \<Rightarrow> 'a list" where
  "find_all P xs = filter P xs"

text \<open>\<^verbatim>\<open>doc.deleteOne()\<close>: removes the first document with the \<^verbatim>\<open>_id\<close> of \<^verbatim>\<open>doc\<close>.\<close>

fun deleteOne :: "ObjectId \<Rightarrow> File list \<Rightarrow> File list" where
  "deleteOne i [] = []"
| "deleteOne i (f # fs) = (if file_id f = i then fs else f # deleteOne i fs)"

text \<open>
  What \<^verbatim>\<open>res.json\<close> writes for a File document: every path that is set, \<^verbatim>\<open>_id\<close> and the
  version key.
\<close>

definition file_toJSON :: "File \<Rightarrow> json" where
  "file_toJSON f = JObj (
     [(''_id'', JId (file_id f)),
      (''filename'', JStr (filename f)),
      (''filepath'', JStr (filepath f)),
      (''uploadedBy'', JId (uploadedBy f))]
     @ (case code f of None \<Rightarrow> [] | Some c \<Rightarrow> [(''code'', JStr c)])
     @ [(''uploadedAt'', JDate (uploadedAt f)),
        (''__v'', JNum 0)])"

subsection \<open>\<^verbatim>\<open>authMiddleware\<close>\<close>

text \<open>
  The argument \<open>hdr\<close> is \<^verbatim>\<open>req.headers.authorization\<close>. The result is the response
  that ends the request, or the \<^verbatim>\<open>id\<close> of \<^verbatim>\<open>req.user\<close> with which \<^verbatim>\<open>next()\<close> runs.
\<close>

definition authMiddleware :: "libs \<Rightarrow> string \<Rightarrow> string option \<Rightarrow> response + ObjectId" where
  "authMiddleware L secret hdr =
     (case (case hdr of None \<Rightarrow> None | Some h \<Rightarrow> index (split CHR '' '' h) 1) of
        None \<Rightarrow> Inl (Json 401 (error_body ''Unauthorized''))
      | Some token \<Rightarrow>
          if token = [] then Inl (Json 401 (error_body ''Unauthorized''))
          else (case jwt_verify L token secret of
                  None \<Rightarrow> Inl (Json 401 (error_body ''Invalid token''))
                | Some uid \<Rightarrow> Inr uid))"

subsection \<open>\<^verbatim>\<open>POST /register\<close> and \<^verbatim>\<open>POST /login\<close>\<close>

definition post_register :: "libs \<Rightarrow> db \<Rightarrow> string \<Rightarrow> string \<Rightarrow> nat \<Rightarrow> response \<times> db" where
  "post_register L st uname pw salt =
     (let hashed = bcrypt_hash L pw salt;
          user = \<lparr>user_id = next_id st, username = uname, password = hashed\<rparr>
      in (Json 200 (message_body ''User registered''),
          st\<lparr>Users := Users st @ [user], next_id := Suc (next_id st)\<rparr>))"

definition post_login :: "libs \<Rightarrow> string \<Rightarrow> db \<Rightarrow> string \<Rightarrow> string \<Rightarrow> nat \<Rightarrow> response" where
  "post_login L secret st uname pw now =
     (case findOne (\<lambda>u. username u = uname) (Users st) of
        None \<Rightarrow> Json 401 (error_body ''User not found'')
      | Some user \<Rightarrow>
          if \<not> bcrypt_compare L pw (password user)
          then Json 401 (error_body ''Invalid password'')
          else Json 200 (JObj [(''token'', JStr (jwt_sign L (user_id user) now secret))]))"

subsection \<open>\<^verbatim>\<open>POST /upload\<close>\<close>

text \<open>
  What the request meets outside the program: the clock when multer names the file, the
  value of \<^verbatim>\<open>Math.random()\<close>, the clock when the document takes its default
  \<^verbatim>\<open>uploadedAt\<close>.
\<close>

record upload_env =
  multer_now :: nat
  random :: rat
  doc_now :: nat

text \<open>
  \<^verbatim>\<open>upload.single("file")\<close> with the disk storage of the source: a file part (original
  name and content) is written to \<^verbatim>\<open>uploads/<now>-<originalname>\<close>, and \<^verbatim>\<open>req.file\<close>
  gets that name and path; without a file part \<^verbatim>\<open>req.file\<close> stays \<^verbatim>\<open>undefined\<close>.
\<close>

definition multer_single ::
  "nat \<Rightarrow> (string \<times> string) option \<Rightarrow> disk \<Rightarrow> (string \<times> string) option \<times> disk" where
  "multer_single now part d =
     (case part of
        None \<Rightarrow> (None, d)
      | Some (originalname, content) \<Rightarrow>
          (let name = dec now @ ''-'' @ originalname;
               path = ''uploads/'' @ name
           in (Some (name, path), d(path \<mapsto> content))))"

definition upload_handler ::
  "db \<Rightarrow> ObjectId \<Rightarrow> (string \<times> string) option \<Rightarrow> upload_env \<Rightarrow> response \<times> db" where
  "upload_handler st uid req_file env =
     (let c = generate (random env)
      in case req_file of
           None \<Rightarrow> (Throws (TypeError ''req.file is undefined''), st)
         | Some (name, path) \<Rightarrow>
             (let file = \<lparr>file_id = next_id st, filename = name, filepath = path,
                          uploadedBy = uid, code = Some c, uploadedAt = doc_now env\<rparr>
              in (Json 200 (JObj [(''message'', JStr ''File uploaded''), (''code'', JStr c)]),
                  st\<lparr>Files := Files st @ [file], next_id := Suc (next_id st)\<rparr>)))"

definition post_upload ::
  "libs \<Rightarrow> string \<Rightarrow> db \<Rightarrow> string option \<Rightarrow> (string \<times> string) option \<Rightarrow> upload_env
     \<Rightarrow> response \<times> db" where
  "post_upload L secret st hdr part env =
     (case authMiddleware L secret hdr of
        Inl resp \<Rightarrow> (resp, st)
      | Inr uid \<Rightarrow>
          (let (req_file, d) = multer_single (multer_now env) part (uploads st)
           in upload_handler (st\<lparr>uploads := d\<rparr>) uid req_file env))"

subsection \<open>\<^verbatim>\<open>GET /files\<close>\<close>

definition files_of :: "db \<Rightarrow> ObjectId \<Rightarrow> File list" where
  "files_of st uid = find_all (\<lambda>f. uploadedBy f = uid) (Files st)"

definition get_files :: "libs \<Rightarrow> string \<Rightarrow> db \<Rightarrow> string option \<Rightarrow> response" where
  "get_files L secret st hdr =
     (case authMiddleware L secret hdr of
        Inl resp \<Rightarrow> resp
      | Inr uid \<Rightarrow> Json 200 (JArr (map file_toJSON (files_of st uid))))"

subsection \<open>\<^verbatim>\<open>DELETE /delete/:id\<close>\<close>

definition delete_handler :: "libs \<Rightarrow> db \<Rightarrow> ObjectId \<Rightarrow> ObjectId \<Rightarrow> response \<times> db" where
  "delete_handler L st uid i =
     (case findOne (\<lambda>f. file_id f = i \<and> uploadedBy f = uid) (Files st) of
        None \<Rightarrow> (Json 404 (error_body ''File not found''), st)
      | Some file \<Rightarrow>
          (let d = (case unlinkSync L (filepath file) (uploads st) of
                      Inl err \<Rightarrow> uploads st   \<comment> \<open>caught and logged\<close>
                    | Inr d' \<Rightarrow> d')
           in (Json 200 (message_body ''File deleted''),
               st\<lparr>uploads := d, Files := deleteOne (file_id file) (Files st)\<rparr>)))"

definition delete_file ::
  "libs \<Rightarrow> string \<Rightarrow> db \<Rightarrow> string option \<Rightarrow> ObjectId \<Rightarrow> response \<times> db" where
  "delete_file L secret st hdr i =
     (case authMiddleware L secret hdr of
        Inl resp \<Rightarrow> (resp, st)
      | Inr uid \<Rightarrow> delete_handler L st uid i)"

subsection \<open>\<^verbatim>\<open>POST /download/:id\<close>\<close>

text \<open>
  \<^verbatim>\<open>file.code !== code\<close>: the stored code is a string or \<^verbatim>\<open>undefined\<close>, the supplied one
  is any JSON value of the body or \<^verbatim>\<open>undefined\<close> (\<open>None\<close>) when the body has no
  \<^verbatim>\<open>code\<close>. Strict equality holds for two equal strings and for two \<^verbatim>\<open>undefined\<close>.
\<close>

fun strict_eq :: "string option \<Rightarrow> json option \<Rightarrow> bool" where
  "strict_eq (Some s) (Some (JStr t)) = (s = t)"
| "strict_eq None None = True"
| "strict_eq _ _ = False"

text \<open>
  \<^verbatim>\<open>res.download(path)\<close> reads the file from the disk; the source passes no callback,
  so a file that is missing ends in \<^verbatim>\<open>next(err)\<close>.
\<close>

definition res_download :: "disk \<Rightarrow> string \<Rightarrow> response" where
  "res_download d path =
     (case d path of
        None \<Rightarrow> NextError (FsError ''ENOENT'')
      | Some content \<Rightarrow> Download path content)"

text \<open>
  The argument \<open>param\<close> is \<^verbatim>\<open>req.params.id\<close>. \<^verbatim>\<open>File.findById\<close> rejects for a string
  that is no ObjectId, and the handler has no \<^verbatim>\<open>catch\<close>.
\<close>

definition post_download :: "libs \<Rightarrow> db \<Rightarrow> string \<Rightarrow> json option \<Rightarrow> response" where
  "post_download L st param supplied =
     (case castObjectId L param of
        None \<Rightarrow> Throws (CastError param)
      | Some i \<Rightarrow>
          (case findById i (Files st) of
             None \<Rightarrow> Json 403 (error_body ''Invalid code'')
           | Some file \<Rightarrow>
               if \<not> strict_eq (code file) supplied
               then Json 403 (error_body ''Invalid code'')
               else res_download (uploads st) (filepath file)))"

subsection \<open>The server as a transition system\<close>

datatype request =
    Register string string nat
  | Login string string nat
  | Upload "string option" "(string \<times> string) option" upload_env
  | ListFiles "string option"
  | Delete "string option" ObjectId
  | DownloadFile string "json option"

fun handle :: "libs \<Rightarrow> string \<Rightarrow> db \<Rightarrow> request \<Rightarrow> response \<times> db" where
  "handle L secret st (Register uname pw salt) = post_register L st uname pw salt"
| "handle L secret st (Login uname pw now) = (post_login L secret st uname pw now, st)"
| "handle L secret st (Upload hdr part env) = post_upload L secret st hdr part env"
| "handle L secret st (ListFiles hdr) = (get_files L secret st hdr, st)"
| "handle L secret st (Delete hdr i) = delete_file L secret st hdr i"
| "handle L secret st (DownloadFile param supplied) = (post_download L st param supplied, st)"

text \<open>\<^verbatim>\<open>Math.random()\<close> returns a Number that is at least 0 and less than 1.\<close>

definition valid_random :: "rat \<Rightarrow> bool" where
  "valid_random r \<longleftrightarrow> is_double r \<and> 0 \<le> r \<and> r < 1"

fun valid_request :: "request \<Rightarrow> bool" where
  "valid_request (Upload hdr part env) = valid_random (random env)"
| "valid_request _ = True"

text \<open>The states the server reaches from the empty database.\<close>

inductive reachable :: "libs \<Rightarrow> string \<Rightarrow> db \<Rightarrow> bool" for L secret where
  reachable_init: "reachable L secret init_db"
| reachable_step:
    "reachable L secret st \<Longrightarrow> valid_request rq \<Longrightarrow> reachable L secret (snd (handle L secret st rq))"

fun run :: "libs \<Rightarrow> string \<Rightarrow> db \<Rightarrow> request list \<Rightarrow> db" where
  "run L secret st [] = st"
| "run L secret st (rq # rqs) = run L secret (snd (handle L secret st rq)) rqs"

subsection \<open>What is assumed of the libraries\<close>

text \<open>
  bcrypt accepts a password against its own hash; a token signed with the secret verifies
  under it to the id it was signed for, and is a non-empty string without a space (a JWT
  is three base64url segments joined by dots).
\<close>

definition libs_ok :: "libs \<Rightarrow> string \<Rightarrow> bool" where
  "libs_ok L secret \<longleftrightarrow>
     (\<forall>pw salt. bcrypt_compare L pw (bcrypt_hash L pw salt)) \<and>
     (\<forall>i now. jwt_verify L (jwt_sign L i now secret) secret = Some i
        \<and> jwt_sign L i now secret \<noteq> []
        \<and> CHR '' '' \<notin> set (jwt_sign L i now secret))"

text \<open>The cast of a string of 24 hexadecimal digits to the ObjectId it denotes.\<close>

definition hex_digit :: "char \<Rightarrow> nat option" where
  "hex_digit c = map_of
     [(CHR ''0'', 0), (CHR ''1'', 1), (CHR ''2'', 2), (CHR ''3'', 3), (CHR ''4'', 4),
      (CHR ''5'', 5), (CHR ''6'', 6), (CHR ''7'', 7), (CHR ''8'', 8), (CHR ''9'', 9),
      (CHR ''a'', 10), (CHR ''b'', 11), (CHR ''c'', 12), (CHR ''d'', 13), (CHR ''e'', 14),
      (CHR ''f'', 15), (CHR ''A'', 10), (CHR ''B'', 11), (CHR ''C'', 12), (CHR ''D'', 13),
      (CHR ''E'', 14), (CHR ''F'', 15)] c"

fun parse_hex :: "nat \<Rightarrow> string \<Rightarrow> nat option" where
  "parse_hex acc [] = Some acc"
| "parse_hex acc (c # cs) =
     (case hex_digit c of None \<Rightarrow> None | Some d \<Rightarrow> parse_hex (16 * acc + d) cs)"

definition hex_ObjectId :: "string \<Rightarrow> ObjectId option" where
  "hex_ObjectId s = (if length s = 24 then parse_hex 0 s else None)"

text \<open>
  A small instance of the libraries, to run the model on concrete requests: the hash is
  the marked password, a token is the secret followed by the id in unary,
  \<^verbatim>\<open>unlinkSync\<close> throws ENOENT for a path that is not on the disk, and an ObjectId is
  cast from its 24 hexadecimal digits.
\<close>

definition plain_libs :: libs where
  "plain_libs = \<lparr>
     bcrypt_hash = (\<lambda>pw salt. CHR ''$'' # pw),
     bcrypt_compare = (\<lambda>pw h. h = CHR ''$'' # pw),
     jwt_sign = (\<lambda>i now secret. secret @ ''.'' @ replicate i CHR ''x''),
     jwt_verify = (\<lambda>token secret.
        if take (Suc (length secret)) token = secret @ ''.''
           \<and> drop (Suc (length secret)) token
               = replicate (length token - Suc (length secret)) CHR ''x''
        then Some (length token - Suc (length secret)) else None),
     unlinkSync = (\<lambda>path d.
        if path \<in> dom d then Inr (d(path := None)) else Inl (FsError ''ENOENT'')),
     castObjectId = hex_ObjectId\<rparr>"

text \<open>
  A run of the server on that instance: alice and bob register, and alice (the id 0, whose
  token is \<^verbatim>\<open>s3cret.\<close>) uploads \<^verbatim>\<open>a.txt\<close>.
\<close>

definition example_trace :: "request list" where
  "example_trace =
     [Register ''alice'' ''p@ss1'' 11,
      Register ''bob'' ''hunter2'' 12,
      Upload (Some ''Bearer s3cret.'') (Some (''a.txt'', ''hello''))
        \<lparr>multer_now = 1700, random = 1 / 2, doc_now = 1701\<rparr>]"

definition example_db :: db where
  "example_db = run plain_libs ''s3cret'' init_db example_trace"

text \<open>
  A longer run: alice uploads \<^verbatim>\<open>a.txt\<close> again within the same millisecond, so that
  multer gives both uploads one path, and deletes the first record. The second record is
  left without its file on disk.
\<close>

definition orphan_trace :: "request list" where
  "orphan_trace = example_trace @
     [Upload (Some ''Bearer s3cret.'') (Some (''a.txt'', ''world''))
        \<lparr>multer_now = 1700, random = 1 / 4, doc_now = 1702\<rparr>,
      Delete (Some ''Bearer s3cret.'') 2]"

definition orphan_db :: db where
  "orphan_db = run plain_libs ''s3cret'' init_db orphan_trace"

subsection \<open>Notions used by the properties\<close>

text \<open>The keys of a JSON object.\<close>

fun keys_of :: "json \<Rightarrow> string list" where
  "keys_of (JObj kvs) = map fst kvs"
| "keys_of _ = []"

text \<open>An access code: six decimal digits.\<close>

definition six_digits :: "string \<Rightarrow> bool" where
  "six_digits c \<longleftrightarrow> length c = 6 \<and> set c \<subseteq> set ''0123456789''"

text \<open>
  The invariant of the File collection: the ids are distinct and below the next id, and
  every document has an access code of six digits.
\<close>

definition files_ok :: "db \<Rightarrow> bool" where
  "files_ok st \<longleftrightarrow>
     distinct (map file_id (Files st)) \<and>
     (\<forall>f \<in> set (Files st). file_id f < next_id st \<and> (\<exists>c. code f = Some c \<and> six_digits c))"

section \<open>Properties\<close>

subsection \<open>Decimal strings\<close>

lemma dec_small: "n < 10 \<Longrightarrow> dec n = [digit_char n]"
  by (simp add: dec.simps[of n])

lemma dec_large: "\<not> n < 10 \<Longrightarrow> dec n = dec (n div 10) @ [digit_char (n mod 10)]"
  by (simp add: dec.simps[of n])

lemma digit_char_in: "d < 10 \<Longrightarrow> digit_char d \<in> set ''0123456789''"
  unfolding digit_char_def by (rule nth_mem) simp

lemma digit_val_digit_char: "d < 10 \<Longrightarrow> digit_val (digit_char d) = d"
proof -
  assume "d < 10"
  then have "d \<in> {0,1,2,3,4,5,6,7,8,9}" by auto
  then show ?thesis by (auto simp: digit_val_def digit_char_def)
qed

lemma dec_digits: "c \<in> set (dec n) \<Longrightarrow> c \<in> set ''0123456789''"
proof (induction n rule: dec.induct)
  case (1 n)
  show ?case
  proof (cases "n < 10")
    case True
    with "1.prems" have "c = digit_char n" by (simp add: dec_small)
    with True digit_char_in[of n] show ?thesis by blast
  next
    case False
    with "1.prems" have "c \<in> set (dec (n div 10)) \<or> c = digit_char (n mod 10)"
      by (auto simp: dec_large)
    with "1.IH" False digit_char_in[of "n mod 10"] show ?thesis by auto
  qed
qed

lemma length_dec: "10 ^ k \<le> n \<Longrightarrow> n < 10 ^ Suc k \<Longrightarrow> length (dec n) = Suc k"
proof (induction k arbitrary: n)
  case 0
  then show ?case by (simp add: dec_small)
next
  case (Suc k)
  have "(10::nat) \<le> 10 ^ Suc k" by simp
  with Suc.prems have a: "\<not> n < 10" by linarith
  from Suc.prems have "10 * 10 ^ k \<le> n" "n < 10 * 10 ^ Suc k" by simp_all
  then have b: "10 ^ k \<le> n div 10" and c: "n div 10 < 10 ^ Suc k" by linarith+
  from Suc.IH[OF b c] a show ?case by (simp add: dec_large)
qed

lemma parseInt_dec: "parseInt (dec n) = n"
proof (induction n rule: dec.induct)
  case (1 n)
  show ?case
  proof (cases "n < 10")
    case True
    then show ?thesis by (simp add: parseInt_def digit_val_digit_char dec_small)
  next
    case False
    with "1.IH" have "parseInt (dec (n div 10)) = n div 10" by simp
    with False show ?thesis
      by (simp add: parseInt_def digit_val_digit_char dec_large)
  qed
qed

subsection \<open>Doubles\<close>

lemma ilog2_bounds_ge1:
  assumes "1 \<le> x"
  shows "2 powi (ilog2 x) \<le> x" "x < 2 powi (ilog2 x + 1)"
proof -
  let ?n = "\<lfloor>x\<rfloor>"
  from assms have n: "0 < ?n" by simp
  then have b: "1 \<le> bitlen ?n" by (simp add: bitlen_alt_def)
  from bitlen_bounds[OF n] have lo: "2 ^ nat (bitlen ?n - 1) \<le> ?n" and hi: "?n < 2 ^ nat (bitlen ?n)"
    by simp_all
  have "(2::rat) powi (bitlen ?n - 1) = of_int (2 ^ nat (bitlen ?n - 1))"
    using b by (simp add: power_int_def)
  also have "\<dots> \<le> of_int ?n" using lo by (simp only: of_int_le_iff)
  also have "\<dots> \<le> x" by simp
  finally show "2 powi (ilog2 x) \<le> x" using assms by (simp add: ilog2_def)
  from hi have "?n + 1 \<le> 2 ^ nat (bitlen ?n)" by simp
  then have "of_int (?n + 1) \<le> (of_int (2 ^ nat (bitlen ?n)) :: rat)" by (simp only: of_int_le_iff)
  moreover have "x < of_int (?n + 1)" by linarith
  moreover have "(2::rat) powi (bitlen ?n) = of_int (2 ^ nat (bitlen ?n))"
    using b by (simp add: power_int_def)
  ultimately show "x < 2 powi (ilog2 x + 1)" using assms by (simp add: ilog2_def)
qed

lemma ilog2_bounds_lt1:
  assumes "0 < x" "x < 1"
  shows "2 powi (ilog2 x) \<le> x" "x < 2 powi (ilog2 x + 1)"
proof -
  let ?k = "\<lceil>1 / x\<rceil> - 1"
  let ?m = "bitlen ?k"
  from assms have "1 < 1 / x" by simp
  then have k: "0 < ?k" by (simp add: less_ceiling_iff)
  then have b: "1 \<le> ?m" by (simp add: bitlen_alt_def)
  from bitlen_bounds[OF k] have lo: "2 ^ nat (?m - 1) \<le> ?k" and hi: "?k < 2 ^ nat ?m"
    by simp_all
  have e: "ilog2 x = - ?m" using assms by (simp add: ilog2_def)
  have p: "(2::rat) powi ?m = of_int (2 ^ nat ?m)" using b by (simp add: power_int_def)
  have p1: "(2::rat) powi (?m - 1) = of_int (2 ^ nat (?m - 1))" using b by (simp add: power_int_def)
  from hi have "\<lceil>1 / x\<rceil> \<le> 2 ^ nat ?m" by simp
  then have "of_int \<lceil>1 / x\<rceil> \<le> (of_int (2 ^ nat ?m) :: rat)" by (simp only: of_int_le_iff)
  moreover have "1 / x \<le> of_int \<lceil>1 / x\<rceil>" by simp
  ultimately have "1 / x \<le> 2 powi ?m" using p by linarith
  with assms(1) have "1 \<le> x * 2 powi ?m" by (simp add: field_simps)
  then have "1 / 2 powi ?m \<le> x" by (simp add: field_simps)
  then show "2 powi (ilog2 x) \<le> x" by (simp add: e power_int_minus_divide)
  have "of_int ?k < 1 / x" using ceiling_correct[of "1 / x"] by simp
  moreover from lo have "(of_int (2 ^ nat (?m - 1)) :: rat) \<le> of_int ?k" by (simp only: of_int_le_iff)
  ultimately have "2 powi (?m - 1) < 1 / x" using p1 by linarith
  with assms(1) have "x * 2 powi (?m - 1) < 1" by (simp add: field_simps)
  then have "x < 1 / 2 powi (?m - 1)" by (simp add: field_simps)
  also have "\<dots> = 2 powi (- (?m - 1))" by (simp only: power_int_minus_divide)
  finally show "x < 2 powi (ilog2 x + 1)" by (simp add: e)
qed

lemma ilog2_bounds:
  assumes "0 < x"
  shows "2 powi (ilog2 x) \<le> x" "x < 2 powi (ilog2 x + 1)"
  using assms ilog2_bounds_ge1[of x] ilog2_bounds_lt1[of x] by (cases "1 \<le> x"; simp)+

lemma ilog2_unique:
  assumes "2 powi e \<le> x" "x < 2 powi (e + 1)"
  shows "ilog2 x = e"
proof -
  have pos: "0 < x" using assms(1) by (rule less_le_trans[rotated]) simp
  note b = ilog2_bounds[OF pos]
  have "\<not> ilog2 x < e"
  proof
    assume "ilog2 x < e"
    then have "(2::rat) powi (ilog2 x + 1) \<le> 2 powi e" by (intro power_int_increasing) simp_all
    with b(2) assms(1) show False by linarith
  qed
  moreover have "\<not> e < ilog2 x"
  proof
    assume "e < ilog2 x"
    then have "(2::rat) powi (e + 1) \<le> 2 powi (ilog2 x)" by (intro power_int_increasing) simp_all
    with b(1) assms(2) show False by linarith
  qed
  ultimately show ?thesis by simp
qed

lemma rne_bounds: "\<lfloor>y\<rfloor> \<le> rne y" "rne y \<le> \<lfloor>y\<rfloor> + 1"
  by (simp_all add: rne_def Let_def)

lemma rne_of_int: "rne (of_int n) = n"
  by (simp add: rne_def)

lemma rne_mono: "a \<le> b \<Longrightarrow> rne a \<le> rne b"
proof -
  assume ab: "a \<le> b"
  then have fl: "\<lfloor>a\<rfloor> \<le> \<lfloor>b\<rfloor>" by (rule floor_mono)
  show ?thesis
  proof (cases "\<lfloor>a\<rfloor> = \<lfloor>b\<rfloor>")
    case True
    with ab have "a - of_int \<lfloor>a\<rfloor> \<le> b - of_int \<lfloor>b\<rfloor>" by simp
    with True show ?thesis by (auto simp: rne_def Let_def)
  next
    case False
    with fl have "\<lfloor>a\<rfloor> + 1 \<le> \<lfloor>b\<rfloor>" by simp
    with rne_bounds(2)[of a] rne_bounds(1)[of b] show ?thesis by linarith
  qed
qed

lemma ulp_pos: "0 < ulp x"
  by (simp add: ulp_def)

lemma round_double_pos: "0 < x \<Longrightarrow> round_double x = ulp x * of_int (rne (x / ulp x))"
  by (simp add: round_double_def)

lemma round_double_nonneg: "0 \<le> x \<Longrightarrow> 0 \<le> round_double x"
proof (cases "x = 0")
  case True
  then show ?thesis by (simp add: round_double_def)
next
  case False
  assume "0 \<le> x"
  with False have x: "0 < x" by simp
  then have "0 \<le> x / ulp x" using ulp_pos[of x] by simp
  then have "0 \<le> \<lfloor>x / ulp x\<rfloor>" by simp
  with rne_bounds(1)[of "x / ulp x"] have "0 \<le> rne (x / ulp x)" by linarith
  with x ulp_pos[of x] show ?thesis by (simp add: round_double_pos)
qed

text \<open>In the binade of exponent e, rounding stays within the binade's closed range.\<close>

lemma round_double_binade:
  assumes "0 < x" and e: "e = max (ilog2 x) (- 1022)"
  shows "round_double x \<le> 2 powi (e + 1)"
    and "ilog2 x \<ge> - 1022 \<Longrightarrow> 2 powi e \<le> round_double x"
proof -
  have u: "ulp x = 2 powi (e - 52)" by (simp add: ulp_def e)
  have up: "0 < ulp x" by (rule ulp_pos)
  have "x < 2 powi (ilog2 x + 1)" using ilog2_bounds(2)[OF assms(1)] .
  also have "\<dots> \<le> 2 powi (e + 1)" by (intro power_int_increasing) (simp_all add: e)
  finally have "x < 2 powi (e + 1)" .
  moreover have q: "(2::rat) powi (e + 1) = ulp x * 2 ^ 53"
  proof -
    have "(2::rat) powi ((e - 52) + 53) = 2 powi (e - 52) * 2 powi 53"
      by (rule power_int_add) simp
    moreover have "e - 52 + 53 = e + 1" by simp
    ultimately show ?thesis by (simp add: u)
  qed
  ultimately have "x / ulp x \<le> of_int (2 ^ 53)" using up by (simp add: field_simps)
  then have "rne (x / ulp x) \<le> 2 ^ 53" using rne_mono rne_of_int by metis
  then have "(of_int (rne (x / ulp x)) :: rat) \<le> of_int (2 ^ 53)" by (simp only: of_int_le_iff)
  then have "ulp x * of_int (rne (x / ulp x)) \<le> ulp x * 2 ^ 53" using up by simp
  then show "round_double x \<le> 2 powi (e + 1)"
    using assms(1) q by (simp add: round_double_pos)
  assume "ilog2 x \<ge> - 1022"
  then have ee: "e = ilog2 x" by (simp add: e)
  have p: "(2::rat) powi e = ulp x * 2 ^ 52"
  proof -
    have "(2::rat) powi ((e - 52) + 52) = 2 powi (e - 52) * 2 powi 52"
      by (rule power_int_add) simp
    then show ?thesis by (simp add: u)
  qed
  have "2 powi e \<le> x" using ilog2_bounds(1)[OF assms(1)] ee by simp
  with p up have "of_int (2 ^ 52) \<le> x / ulp x" by (simp add: field_simps)
  then have "2 ^ 52 \<le> rne (x / ulp x)" using rne_mono rne_of_int by metis
  then have "(of_int (2 ^ 52) :: rat) \<le> of_int (rne (x / ulp x))" by (simp only: of_int_le_iff)
  then have "ulp x * 2 ^ 52 \<le> ulp x * of_int (rne (x / ulp x))" using up by simp
  then show "2 powi e \<le> round_double x" using assms(1) p by (simp add: round_double_pos)
qed

lemma ilog2_mono:
  assumes "0 < x" "x \<le> y"
  shows "ilog2 x \<le> ilog2 y"
proof (rule ccontr)
  assume "\<not> ilog2 x \<le> ilog2 y"
  then have "(2::rat) powi (ilog2 y + 1) \<le> 2 powi (ilog2 x)"
    by (intro power_int_increasing) simp_all
  moreover from assms have "0 < y" by simp
  ultimately show False
    using ilog2_bounds(1)[OF assms(1)] ilog2_bounds(2)[OF \<open>0 < y\<close>] assms(2) by linarith
qed

lemma round_double_mono:
  assumes "0 \<le> x" "x \<le> y"
  shows "round_double x \<le> round_double y"
proof (cases "x = 0")
  case True
  with assms round_double_nonneg[of y] show ?thesis by (simp add: round_double_def)
next
  case False
  with assms have x: "0 < x" and y: "0 < y" by simp_all
  define ex where "ex = max (ilog2 x) (- 1022)"
  define ey where "ey = max (ilog2 y) (- 1022)"
  from ilog2_mono[OF x assms(2)] have le: "ex \<le> ey" by (simp add: ex_def ey_def)
  show ?thesis
  proof (cases "ex = ey")
    case True
    then have u: "ulp x = ulp y" by (simp add: ulp_def ex_def ey_def)
    from assms(2) ulp_pos[of y] have "x / ulp y \<le> y / ulp y" by (simp add: divide_right_mono)
    then have "rne (x / ulp y) \<le> rne (y / ulp y)" by (rule rne_mono)
    then have "(of_int (rne (x / ulp y)) :: rat) \<le> of_int (rne (y / ulp y))" by (simp only: of_int_le_iff)
    with ulp_pos[of y] x y u show ?thesis by (simp add: round_double_pos)
  next
    case False
    with le have lt: "ex < ey" by simp
    then have "- 1022 < ey" by (simp add: ex_def)
    then have n: "ilog2 y \<ge> - 1022" by (simp add: ey_def)
    have "round_double x \<le> 2 powi (ex + 1)" using round_double_binade(1)[OF x ex_def] .
    also have "\<dots> \<le> 2 powi ey" using lt by (intro power_int_increasing) simp_all
    also have "\<dots> \<le> round_double y" using round_double_binade(2)[OF y ey_def n] .
    finally show ?thesis .
  qed
qed

lemma rne_near: "of_int n \<le> y \<Longrightarrow> y < of_int n + 1 / 2 \<Longrightarrow> rne y = n"
proof -
  assume a: "of_int n \<le> y" "y < of_int n + 1 / 2"
  then have "\<lfloor>y\<rfloor> = n" by (intro floor_unique) simp_all
  with a show ?thesis by (simp add: rne_def)
qed

lemma round_double_near:
  assumes "2 powi e \<le> x" "x < 2 powi (e + 1)" "- 1022 \<le> e"
    and "of_int n \<le> x / 2 powi (e - 52)" "x / 2 powi (e - 52) < of_int n + 1 / 2"
  shows "round_double x = 2 powi (e - 52) * of_int n"
proof -
  have pos: "0 < x" using assms(1) by (rule less_le_trans[rotated]) simp
  from ilog2_unique[OF assms(1,2)] assms(3) have "ulp x = 2 powi (e - 52)"
    by (simp add: ulp_def)
  with pos rne_near[OF assms(4,5)] show ?thesis by (simp add: round_double_pos)
qed

lemma round_double_100000: "round_double 100000 = 100000"
  using round_double_near[of 16 100000 "100000 * 2 ^ 36"] by simp

lemma round_double_top: "round_double (1000000 - 1 / 2 ^ 33) = 1000000 - 1 / 2 ^ 33"
  using round_double_near[of 19 "1000000 - 1 / 2 ^ 33" "1000000 * 2 ^ 33 - 1"] by simp

lemma round_double_product_top:
  "round_double ((1 - 1 / 2 ^ 53) * 900000) = 900000 - 1 / 2 ^ 33"
  using round_double_near[of 19 "(1 - 1 / 2 ^ 53) * 900000" "900000 * 2 ^ 33 - 1"] by simp

lemma double_below_one:
  assumes "is_double r" "r < 1"
  shows "r \<le> 1 - 1 / 2 ^ 53"
proof (cases "r < 1 / 2")
  case True
  then show ?thesis by simp
next
  case False
  then have h: "2 powi (- 1) \<le> r" by simp
  from assms(2) have "r < 2 powi (- 1 + 1)" by simp
  from ilog2_unique[OF h this] have u: "ulp r = 2 powi (- 53)" by (simp add: ulp_def)
  define k where "k = rne (r / ulp r)"
  from False have pos: "0 < r" by simp
  from assms(1) pos have r: "r = of_int k / 2 ^ 53"
    by (simp add: is_double_def round_double_pos u k_def)
  with assms(2) have "of_int k < (of_int (2 ^ 53) :: rat)" by simp
  then have "k < 2 ^ 53" by (simp only: of_int_less_iff)
  then have "k \<le> 2 ^ 53 - 1" by simp
  then have "(of_int k :: rat) \<le> of_int (2 ^ 53 - 1)" by (simp only: of_int_le_iff)
  then have "of_int k / 2 ^ 53 \<le> (of_int (2 ^ 53 - 1) :: rat) / 2 ^ 53"
    by (rule divide_right_mono) simp
  with r show ?thesis by simp
qed

lemma js_code_range:
  assumes "valid_random r"
  shows "100000 \<le> js_add 100000 (js_mul r 900000)"
    and "js_add 100000 (js_mul r 900000) < 1000000"
proof -
  from assms have d: "is_double r" and r0: "0 \<le> r" and r1: "r < 1"
    by (simp_all add: valid_random_def)
  define p where "p = js_mul r 900000"
  from double_below_one[OF d r1] have "r * 900000 \<le> (1 - 1 / 2 ^ 53) * 900000"
    by (intro mult_right_mono) simp_all
  with r0 have "p \<le> round_double ((1 - 1 / 2 ^ 53) * 900000)"
    unfolding p_def js_mul_def by (intro round_double_mono) simp_all
  then have p1: "p \<le> 900000 - 1 / 2 ^ 33" by (simp only: round_double_product_top)
  from r0 have p0: "0 \<le> p" unfolding p_def js_mul_def by (intro round_double_nonneg) simp
  from p0 have "round_double 100000 \<le> js_add 100000 p"
    unfolding js_add_def by (intro round_double_mono) simp_all
  then show "100000 \<le> js_add 100000 (js_mul r 900000)"
    by (simp only: round_double_100000 p_def)
  from p0 p1 have "js_add 100000 p \<le> round_double (1000000 - 1 / 2 ^ 33)"
    unfolding js_add_def by (intro round_double_mono) simp_all
  then have "js_add 100000 p \<le> 1000000 - 1 / 2 ^ 33" by (simp only: round_double_top)
  then show "js_add 100000 (js_mul r 900000) < 1000000" by (simp add: p_def)
qed

lemma is_double_half: "is_double (1 / 2)"
  unfolding is_double_def
  using round_double_near[of "-1" "1 / 2" "2 ^ 52"] by simp

lemma js_half: "js_add 100000 (js_mul (1 / 2) 900000) = 550000"
proof -
  have "js_mul (1 / 2) 900000 = 450000"
    unfolding js_mul_def using round_double_near[of 18 450000 "450000 * 2 ^ 34"] by simp
  moreover have "js_add 100000 450000 = 550000"
    unfolding js_add_def using round_double_near[of 19 550000 "550000 * 2 ^ 33"] by simp
  ultimately show ?thesis by simp
qed

lemma is_double_quarter: "is_double (1 / 4)"
  unfolding is_double_def
  using round_double_near[of "-2" "1 / 4" "2 ^ 52"] by simp

lemma js_quarter: "js_add 100000 (js_mul (1 / 4) 900000) = 325000"
proof -
  have "js_mul (1 / 4) 900000 = 225000"
    unfolding js_mul_def using round_double_near[of 17 225000 "225000 * 2 ^ 35"] by simp
  moreover have "js_add 100000 225000 = 325000"
    unfolding js_add_def using round_double_near[of 18 325000 "325000 * 2 ^ 34"] by simp
  ultimately show ?thesis by simp
qed

lemma valid_random_half: "valid_random (1 / 2)"
  by (simp add: valid_random_def is_double_half)

lemma valid_random_quarter: "valid_random (1 / 4)"
  by (simp add: valid_random_def is_double_quarter)

subsection \<open>The access code\<close>

lemma generate_dec:
  assumes "valid_random r"
  shows "\<exists>n. generate r = dec n \<and> 100000 \<le> n \<and> n \<le> 999999"
proof -
  let ?i = "\<lfloor>js_add 100000 (js_mul r 900000)\<rfloor>"
  from js_code_range[OF assms] have lo: "100000 \<le> ?i" and hi: "?i \<le> 999999"
    by (simp_all add: le_floor_iff floor_less_iff flip: zle_add1_eq_le)
  from lo have "\<not> ?i < 0" by linarith
  then have "generate r = dec (nat ?i)"
    unfolding generate_def toString_def by (rule if_not_P)
  moreover from lo hi have "100000 \<le> nat ?i" "nat ?i \<le> 999999" by linarith+
  ultimately show ?thesis by blast
qed

text \<open>
  C7. Every access code that the generator produces is a string of six decimal digits,
  and the integer it denotes lies between 100000 and 999999.
\<close>

theorem generate_six_digits:
  assumes "valid_random r"
  shows "length (generate r) = 6
       \<and> set (generate r) \<subseteq> set ''0123456789''
       \<and> 100000 \<le> parseInt (generate r) \<and> parseInt (generate r) \<le> 999999"
proof -
  from generate_dec[OF assms] obtain n
    where n: "generate r = dec n" "100000 \<le> n" "n \<le> 999999" by blast
  from n(2,3) have "length (dec n) = Suc 5" by (intro length_dec) simp_all
  moreover have "set (dec n) \<subseteq> set ''0123456789''" using dec_digits by blast
  ultimately show ?thesis using n by (simp add: parseInt_dec)
qed

theorem generate_six_digits_witness:
  "valid_random (1 / 2) \<and> generate (1 / 2) = ''550000''
   \<and> length (generate (1 / 2)) = 6 \<and> parseInt (generate (1 / 2)) = 550000"
proof -
  have g: "generate (1 / 2) = ''550000''"
    by (simp add: generate_def js_half toString_def dec_small dec_large digit_char_def)
  from generate_six_digits[OF valid_random_half] g valid_random_half show ?thesis
    by (simp add: parseInt_def digit_val_def)
qed

subsection \<open>Queries\<close>

lemma findOne_Some: "findOne P xs = Some x \<Longrightarrow> x \<in> set xs \<and> P x"
  by (induction xs) (auto split: if_splits)

lemma findOne_None: "findOne P xs = None \<longleftrightarrow> (\<forall>x \<in> set xs. \<not> P x)"
  by (induction xs) auto

lemma findOne_append:
  "findOne P (xs @ ys) = (case findOne P xs of None \<Rightarrow> findOne P ys | Some x \<Rightarrow> Some x)"
  by (induction xs) auto

lemma findOne_by_id_and:
  assumes "distinct (map file_id fs)" "findOne (\<lambda>f. file_id f = i) fs = Some f"
  shows "findOne (\<lambda>g. file_id g = i \<and> Q g) fs = (if Q f then Some f else None)"
  using assms
proof (induction fs)
  case Nil
  then show ?case by simp
next
  case (Cons g fs)
  show ?case
  proof (cases "file_id g = i")
    case True
    with Cons.prems have "g = f" by simp
    moreover from Cons.prems(1) True have "\<forall>h \<in> set fs. \<not> (file_id h = i \<and> Q h)"
      by (auto simp: image_iff)
    then have "findOne (\<lambda>g. file_id g = i \<and> Q g) fs = None"
      by (simp only: findOne_None)
    ultimately show ?thesis using True by simp
  next
    case False
    with Cons show ?thesis by simp
  qed
qed

lemma set_deleteOne: "set (deleteOne i fs) \<subseteq> set fs"
  by (induction fs) auto

lemma deleteOne_distinct:
  "distinct (map file_id fs) \<Longrightarrow>
     distinct (map file_id (deleteOne i fs)) \<and> i \<notin> file_id ` set (deleteOne i fs)"
proof (induction fs)
  case Nil
  then show ?case by simp
next
  case (Cons f fs)
  then show ?case using set_deleteOne[of i fs] by (auto simp: image_iff)
qed

lemma deleteOne_others:
  "f \<in> set fs \<Longrightarrow> file_id f \<noteq> i \<Longrightarrow> f \<in> set (deleteOne i fs)"
  by (induction fs) auto

subsection \<open>The invariant\<close>

lemma six_digits_generate: "valid_random r \<Longrightarrow> six_digits (generate r)"
proof -
  assume "valid_random r"
  from generate_dec[OF this] obtain n
    where n: "generate r = dec n" "100000 \<le> n" "n \<le> 999999" by blast
  from n(2,3) have "length (dec n) = Suc 5" by (intro length_dec) simp_all
  moreover have "set (dec n) \<subseteq> set ''0123456789''" using dec_digits by blast
  ultimately show ?thesis using n(1) by (simp add: six_digits_def)
qed

lemma files_ok_init: "files_ok init_db"
  by (simp add: files_ok_def init_db_def)

lemma files_ok_register: "files_ok st \<Longrightarrow> files_ok (snd (post_register L st uname pw salt))"
  by (auto simp: files_ok_def post_register_def Let_def less_Suc_eq)

lemma files_ok_upload_handler:
  assumes "files_ok st" "valid_random (random env)"
  shows "files_ok (snd (upload_handler st uid req_file env))"
proof (cases req_file)
  case None
  with assms show ?thesis by (simp add: upload_handler_def)
next
  case (Some a)
  obtain name path where a: "a = (name, path)" by (cases a)
  from assms(1) have "\<forall>f \<in> set (Files st). file_id f \<noteq> next_id st"
    by (auto simp: files_ok_def)
  with assms(1) six_digits_generate[OF assms(2)] Some a show ?thesis
    by (auto simp: files_ok_def upload_handler_def Let_def less_Suc_eq)
qed

lemma files_ok_uploads: "files_ok (st\<lparr>uploads := d\<rparr>) = files_ok st"
  by (simp add: files_ok_def)

lemma files_ok_upload:
  assumes "files_ok st" "valid_random (random env)"
  shows "files_ok (snd (post_upload L secret st hdr part env))"
proof (cases "authMiddleware L secret hdr")
  case (Inl resp)
  with assms show ?thesis by (simp add: post_upload_def)
next
  case (Inr uid)
  obtain rf d where m: "multer_single (multer_now env) part (uploads st) = (rf, d)"
    by (cases "multer_single (multer_now env) part (uploads st)")
  from assms have "files_ok (snd (upload_handler (st\<lparr>uploads := d\<rparr>) uid rf env))"
    by (intro files_ok_upload_handler) (simp_all add: files_ok_uploads)
  with Inr m show ?thesis by (simp add: post_upload_def)
qed

lemma files_ok_delete_handler:
  assumes "files_ok st"
  shows "files_ok (snd (delete_handler L st uid i))"
proof (cases "findOne (\<lambda>f. file_id f = i \<and> uploadedBy f = uid) (Files st)")
  case None
  with assms show ?thesis by (simp add: delete_handler_def)
next
  case (Some doc)
  from assms have "distinct (map file_id (deleteOne (file_id doc) (Files st)))"
    using deleteOne_distinct[of "Files st" "file_id doc"] by (simp add: files_ok_def)
  with assms Some set_deleteOne[of "file_id doc" "Files st"] show ?thesis
    by (auto simp: delete_handler_def files_ok_def Let_def)
qed

lemma files_ok_delete:
  "files_ok st \<Longrightarrow> files_ok (snd (delete_file L secret st hdr i))"
  by (cases "authMiddleware L secret hdr")
     (simp_all add: delete_file_def files_ok_delete_handler)

lemma files_ok_handle:
  "files_ok st \<Longrightarrow> valid_request rq \<Longrightarrow> files_ok (snd (handle L secret st rq))"
  by (cases rq) (simp_all add: files_ok_register files_ok_upload files_ok_delete)

lemma reachable_files_ok: "reachable L secret st \<Longrightarrow> files_ok st"
  by (induction rule: reachable.induct) (simp_all add: files_ok_init files_ok_handle)

lemma reachable_run:
  "reachable L secret st \<Longrightarrow> list_all valid_request rqs \<Longrightarrow> reachable L secret (run L secret st rqs)"
  by (induction rqs arbitrary: st) (auto intro: reachable_step)

subsection \<open>The example runs\<close>

lemma generate_half: "generate (1 / 2) = ''550000''"
  by (simp add: generate_def js_half toString_def dec_small dec_large digit_char_def)

lemma dec_1700: "dec 1700 = ''1700''"
  by (simp add: dec_small dec_large digit_char_def)

lemma plain_libs_simps:
  "bcrypt_hash plain_libs pw salt = CHR ''$'' # pw"
  "bcrypt_compare plain_libs pw h \<longleftrightarrow> h = CHR ''$'' # pw"
  "jwt_sign plain_libs i now secret = secret @ ''.'' @ replicate i CHR ''x''"
  "unlinkSync plain_libs path d =
     (if path \<in> dom d then Inr (d(path := None)) else Inl (FsError ''ENOENT''))"
  "castObjectId plain_libs = hex_ObjectId"
  by (simp_all add: plain_libs_def)

lemma auth_alice: "authMiddleware plain_libs ''s3cret'' (Some ''Bearer s3cret.'') = Inr 0"
  by (simp add: authMiddleware_def plain_libs_def)

lemma auth_bob: "authMiddleware plain_libs ''s3cret'' (Some ''Bearer s3cret.x'') = Inr 1"
  by (simp add: authMiddleware_def plain_libs_def)

lemma example_db_eq:
  "example_db =
     \<lparr>Users = [\<lparr>user_id = 0, username = ''alice'', password = ''$p@ss1''\<rparr>,
               \<lparr>user_id = 1, username = ''bob'', password = ''$hunter2''\<rparr>],
      Files = [\<lparr>file_id = 2, filename = ''1700-a.txt'', filepath = ''uploads/1700-a.txt'',
                uploadedBy = 0, code = Some ''550000'', uploadedAt = 1701\<rparr>],
      uploads = [''uploads/1700-a.txt'' \<mapsto> ''hello''],
      next_id = 3\<rparr>"
  by (simp add: example_db_def example_trace_def init_db_def post_register_def
      post_upload_def auth_alice multer_single_def upload_handler_def generate_half dec_1700
      plain_libs_simps Let_def)

lemma reachable_example: "reachable plain_libs ''s3cret'' example_db"
  unfolding example_db_def
  by (rule reachable_run[OF reachable_init]) (simp add: example_trace_def valid_random_half)

lemma run_append: "run L secret st (rqs @ rqs') = run L secret (run L secret st rqs) rqs'"
  by (induction rqs arbitrary: st) simp_all

lemma generate_quarter: "generate (1 / 4) = ''325000''"
  by (simp add: generate_def js_quarter toString_def dec_small dec_large digit_char_def)

lemma orphan_db_eq:
  "orphan_db =
     \<lparr>Users = [\<lparr>user_id = 0, username = ''alice'', password = ''$p@ss1''\<rparr>,
               \<lparr>user_id = 1, username = ''bob'', password = ''$hunter2''\<rparr>],
      Files = [\<lparr>file_id = 3, filename = ''1700-a.txt'', filepath = ''uploads/1700-a.txt'',
                uploadedBy = 0, code = Some ''325000'', uploadedAt = 1702\<rparr>],
      uploads = Map.empty,
      next_id = 4\<rparr>"
proof -
  have "orphan_db = run plain_libs ''s3cret'' example_db
     [Upload (Some ''Bearer s3cret.'') (Some (''a.txt'', ''world''))
        \<lparr>multer_now = 1700, random = 1 / 4, doc_now = 1702\<rparr>,
      Delete (Some ''Bearer s3cret.'') 2]"
    by (simp only: orphan_db_def orphan_trace_def run_append example_db_def)
  then show ?thesis
    by (simp add: example_db_eq post_upload_def auth_alice multer_single_def
        upload_handler_def generate_quarter dec_1700 plain_libs_simps Let_def
        delete_file_def delete_handler_def)
qed

lemma reachable_orphan: "reachable plain_libs ''s3cret'' orphan_db"
  unfolding orphan_db_def
  by (rule reachable_run[OF reachable_init])
     (simp add: orphan_trace_def example_trace_def valid_random_half valid_random_quarter)

subsection \<open>The download gate\<close>


lemma cast_example_ids:
  "hex_ObjectId ''000000000000000000000002'' = Some 2"
  "hex_ObjectId ''000000000000000000000003'' = Some 3"
  "hex_ObjectId ''000000000000000000000007'' = Some 7"
  "hex_ObjectId ''xyz'' = None"
  by (simp_all add: hex_ObjectId_def hex_digit_def)




text \<open>
  C10. In every state that the server reaches, a download request without a code gets
  403 \<^verbatim>\<open>{error: "Invalid code"}\<close> for every stored file: the stored code is a string
  of six digits, and \<^verbatim>\<open>!==\<close> holds between a string and \<^verbatim>\<open>undefined\<close>.
\<close>

theorem download_without_code:
  assumes "reachable L secret st" and "castObjectId L param = Some i"
    and "findById i (Files st) = Some doc"
  shows "post_download L st param None = Json 403 (error_body ''Invalid code'')
       \<and> (\<exists>c. code doc = Some c \<and> six_digits c)"
proof -
  from assms(3) have "doc \<in> set (Files st)"
    unfolding findById_def by (blast dest: findOne_Some)
  with reachable_files_ok[OF assms(1)] obtain c where c: "code doc = Some c" "six_digits c"
    unfolding files_ok_def by blast
  with assms(2,3) show ?thesis by (simp add: post_download_def)
qed

theorem download_without_code_witness:
  "reachable plain_libs ''s3cret'' example_db
   \<and> castObjectId plain_libs ''000000000000000000000002'' = Some 2
   \<and> findById 2 (Files example_db) = Some (hd (Files example_db))
   \<and> post_download plain_libs example_db ''000000000000000000000002'' None
       = Json 403 (error_body ''Invalid code'')
   \<and> code (hd (Files example_db)) = Some ''550000''"
proof -
  have c: "castObjectId plain_libs ''000000000000000000000002'' = Some 2"
    by (simp add: plain_libs_simps cast_example_ids)
  have f: "findById 2 (Files example_db) = Some (hd (Files example_db))"
    by (simp add: example_db_eq findById_def)
  from download_without_code[OF reachable_example c f] reachable_example c f show ?thesis
    by (simp add: example_db_eq)
qed

subsection \<open>Deleting\<close>

text \<open>
  C8. When the file with the given id belongs to another user, the delete request of an
  authenticated caller gets 404 \<^verbatim>\<open>{error: "File not found"}\<close>, the same answer as for
  an id that no file has, and the state (the records and the files on disk) is unchanged.
\<close>

theorem delete_foreign_file:
  assumes "reachable L secret st" and "authMiddleware L secret hdr = Inr A"
    and "findById i (Files st) = Some doc" and "uploadedBy doc \<noteq> A"
  shows "delete_file L secret st hdr i = (Json 404 (error_body ''File not found''), st)
       \<and> (\<forall>j. findById j (Files st) = None \<longrightarrow>
             delete_file L secret st hdr j = delete_file L secret st hdr i)"
proof -
  from reachable_files_ok[OF assms(1)] have d: "distinct (map file_id (Files st))"
    by (simp add: files_ok_def)
  from findOne_by_id_and[OF d assms(3)[unfolded findById_def], of "\<lambda>g. uploadedBy g = A"] assms(4)
  have "findOne (\<lambda>f. file_id f = i \<and> uploadedBy f = A) (Files st) = None" by simp
  with assms(2) have 1: "delete_file L secret st hdr i = (Json 404 (error_body ''File not found''), st)"
    by (simp add: delete_file_def delete_handler_def)
  have 2: "delete_file L secret st hdr j = (Json 404 (error_body ''File not found''), st)"
    if "findById j (Files st) = None" for j
  proof -
    from that have "findOne (\<lambda>f. file_id f = j \<and> uploadedBy f = A) (Files st) = None"
      by (simp add: findById_def findOne_None)
    with assms(2) show ?thesis by (simp add: delete_file_def delete_handler_def)
  qed
  from 1 2 show ?thesis by simp
qed

theorem delete_foreign_file_witness:
  "reachable plain_libs ''s3cret'' example_db
   \<and> authMiddleware plain_libs ''s3cret'' (Some ''Bearer s3cret.x'') = Inr 1
   \<and> map uploadedBy (Files example_db) = [0]
   \<and> delete_file plain_libs ''s3cret'' example_db (Some ''Bearer s3cret.x'') 2
       = (Json 404 (error_body ''File not found''), example_db)
   \<and> delete_file plain_libs ''s3cret'' example_db (Some ''Bearer s3cret.x'') 9
       = (Json 404 (error_body ''File not found''), example_db)"
proof -
  have f: "findById 2 (Files example_db) = Some (hd (Files example_db))"
    and o: "uploadedBy (hd (Files example_db)) \<noteq> 1"
    and n: "findById 9 (Files example_db) = None"
    by (simp_all add: example_db_eq findById_def)
  from delete_foreign_file[OF reachable_example auth_bob f o] n reachable_example auth_bob
  show ?thesis by (simp add: example_db_eq)
qed

text \<open>
  C9. When the owner deletes a file, the record is deleted and the response is 200
  \<^verbatim>\<open>{message: "File deleted"}\<close> whatever \<^verbatim>\<open>fs.unlinkSync\<close> does; when it throws, the
  disk stays as it is and the request goes on.
\<close>

theorem delete_own_file:
  assumes "reachable L secret st" and "authMiddleware L secret hdr = Inr A"
    and "findById i (Files st) = Some doc" and "uploadedBy doc = A"
    and "delete_file L secret st hdr i = (resp, st')"
  shows "resp = Json 200 (message_body ''File deleted'')
       \<and> Files st' = deleteOne i (Files st)
       \<and> findById i (Files st') = None
       \<and> (\<forall>g \<in> set (Files st). file_id g \<noteq> i \<longrightarrow> g \<in> set (Files st'))
       \<and> (\<forall>err. unlinkSync L (filepath doc) (uploads st) = Inl err \<longrightarrow> uploads st' = uploads st)
       \<and> (\<forall>d. unlinkSync L (filepath doc) (uploads st) = Inr d \<longrightarrow> uploads st' = d)"
proof -
  from reachable_files_ok[OF assms(1)] have d: "distinct (map file_id (Files st))"
    by (simp add: files_ok_def)
  from findOne_by_id_and[OF d assms(3)[unfolded findById_def], of "\<lambda>g. uploadedBy g = A"] assms(4)
  have q: "findOne (\<lambda>f. file_id f = i \<and> uploadedBy f = A) (Files st) = Some doc" by simp
  from assms(3) have i: "file_id doc = i"
    unfolding findById_def by (blast dest: findOne_Some)
  from q i assms(2,5) have r: "resp = Json 200 (message_body ''File deleted'')"
    and f: "Files st' = deleteOne i (Files st)"
    and u: "uploads st' = (case unlinkSync L (filepath doc) (uploads st) of
                            Inl err \<Rightarrow> uploads st | Inr d' \<Rightarrow> d')"
    by (auto simp: delete_file_def delete_handler_def Let_def)
  from deleteOne_distinct[OF d, of i] f have "findById i (Files st') = None"
    by (auto simp: findById_def findOne_None)
  moreover from f have "\<forall>g \<in> set (Files st). file_id g \<noteq> i \<longrightarrow> g \<in> set (Files st')"
    by (simp add: deleteOne_others)
  ultimately show ?thesis using r f u by simp
qed

theorem delete_own_file_witness:
  "reachable plain_libs ''s3cret'' orphan_db
   \<and> authMiddleware plain_libs ''s3cret'' (Some ''Bearer s3cret.'') = Inr 0
   \<and> unlinkSync plain_libs ''uploads/1700-a.txt'' (uploads orphan_db) = Inl (FsError ''ENOENT'')
   \<and> delete_file plain_libs ''s3cret'' orphan_db (Some ''Bearer s3cret.'') 3
       = (Json 200 (message_body ''File deleted''), orphan_db\<lparr>Files := []\<rparr>)"
proof -
  have f: "findById 3 (Files orphan_db) = Some (hd (Files orphan_db))"
    and o: "uploadedBy (hd (Files orphan_db)) = 0"
    by (simp_all add: orphan_db_eq findById_def)
  obtain resp st' where r:
    "delete_file plain_libs ''s3cret'' orphan_db (Some ''Bearer s3cret.'') 3 = (resp, st')"
    by (cases "delete_file plain_libs ''s3cret'' orphan_db (Some ''Bearer s3cret.'') 3")
  have e: "unlinkSync plain_libs ''uploads/1700-a.txt'' (uploads orphan_db) = Inl (FsError ''ENOENT'')"
    by (simp add: orphan_db_eq plain_libs_simps)
  from delete_own_file[OF reachable_orphan auth_alice f o r]
  have "resp = Json 200 (message_body ''File deleted'')" by blast
  moreover from r have "st' = orphan_db\<lparr>Files := []\<rparr>"
    by (simp add: delete_file_def delete_handler_def auth_alice orphan_db_eq plain_libs_simps)
  ultimately show ?thesis using r e reachable_orphan auth_alice by simp
qed

subsection \<open>Listing\<close>

text \<open>
  C3. After an upload by the authenticated user A, the listing of A contains the new
  record and the listing of any other user does not; a listing holds exactly the
  records whose \<^verbatim>\<open>uploadedBy\<close> is the caller's id.
\<close>

theorem upload_then_list:
  assumes "authMiddleware L secret hdr = Inr A"
    and "post_upload L secret st hdr (Some part) env = (resp, st')"
  shows "\<exists>doc. Files st' = Files st @ [doc] \<and> file_id doc = next_id st
           \<and> uploadedBy doc = A
           \<and> resp = Json 200 (JObj [(''message'', JStr ''File uploaded''),
                                    (''code'', JStr (generate (random env)))])
           \<and> doc \<in> set (files_of st' A)
           \<and> (\<forall>B. B \<noteq> A \<longrightarrow> doc \<notin> set (files_of st' B))
           \<and> (\<forall>C. set (files_of st' C) = {f \<in> set (Files st'). uploadedBy f = C})
           \<and> get_files L secret st' hdr = Json 200 (JArr (map file_toJSON (files_of st' A)))"
proof -
  obtain originalname content where part: "part = (originalname, content)" by (cases part)
  define doc where "doc = \<lparr>file_id = next_id st,
      filename = dec (multer_now env) @ ''-'' @ originalname,
      filepath = ''uploads/'' @ dec (multer_now env) @ ''-'' @ originalname,
      uploadedBy = A, code = Some (generate (random env)), uploadedAt = doc_now env\<rparr>"
  from assms part have "Files st' = Files st @ [doc]"
    and "resp = Json 200 (JObj [(''message'', JStr ''File uploaded''),
                                (''code'', JStr (generate (random env)))])"
    by (auto simp: post_upload_def multer_single_def upload_handler_def Let_def doc_def)
  moreover have "uploadedBy doc = A" "file_id doc = next_id st" by (simp_all add: doc_def)
  ultimately show ?thesis using assms(1)
    by (auto simp: files_of_def find_all_def get_files_def)
qed

theorem upload_then_list_witness:
  "authMiddleware plain_libs ''s3cret'' (Some ''Bearer s3cret.x'') = Inr 1
   \<and> map file_id (files_of example_db 1) = []
   \<and> map file_id (files_of (snd (post_upload plain_libs ''s3cret'' example_db
         (Some ''Bearer s3cret.x'') (Some (''b.txt'', ''bye''))
         \<lparr>multer_now = 1800, random = 1 / 4, doc_now = 1801\<rparr>)) 1) = [3]
   \<and> map file_id (files_of (snd (post_upload plain_libs ''s3cret'' example_db
         (Some ''Bearer s3cret.x'') (Some (''b.txt'', ''bye''))
         \<lparr>multer_now = 1800, random = 1 / 4, doc_now = 1801\<rparr>)) 0) = [2]"
proof -
  let ?up = "post_upload plain_libs ''s3cret'' example_db
         (Some ''Bearer s3cret.x'') (Some (''b.txt'', ''bye''))
         \<lparr>multer_now = 1800, random = 1 / 4, doc_now = 1801\<rparr>"
  have up: "?up = (fst ?up, snd ?up)" by simp
  from upload_then_list[OF auth_bob up] obtain doc
    where doc: "Files (snd ?up) = Files example_db @ [doc]" "uploadedBy doc = 1"
      "file_id doc = next_id example_db"
    by blast
  then have "file_id doc = 3" by (simp add: example_db_eq)
  with doc auth_bob show ?thesis
    by (simp add: files_of_def find_all_def example_db_eq)
qed

text \<open>
  C6, as the code has it. For an authenticated caller the response of the listing is the
  array of the caller's File documents as Mongoose serialises them: each object has the
  keys \<^verbatim>\<open>_id\<close>, \<^verbatim>\<open>filename\<close>, \<^verbatim>\<open>filepath\<close>, \<^verbatim>\<open>uploadedBy\<close>, \<^verbatim>\<open>code\<close>, \<^verbatim>\<open>uploadedAt\<close> and
  \<^verbatim>\<open>__v\<close>, so it carries the access code and the storage path of the file.
\<close>

theorem list_files_full_documents:
  assumes "reachable L secret st" and "authMiddleware L secret hdr = Inr A"
  shows "get_files L secret st hdr = Json 200 (JArr (map file_toJSON (files_of st A)))
       \<and> (\<forall>doc \<in> set (files_of st A). \<exists>c. code doc = Some c \<and>
             file_toJSON doc = JObj
               [(''_id'', JId (file_id doc)),
                (''filename'', JStr (filename doc)),
                (''filepath'', JStr (filepath doc)),
                (''uploadedBy'', JId A),
                (''code'', JStr c),
                (''uploadedAt'', JDate (uploadedAt doc)),
                (''__v'', JNum 0)])"
proof -
  have "\<exists>c. code doc = Some c \<and> file_toJSON doc = JObj
               [(''_id'', JId (file_id doc)),
                (''filename'', JStr (filename doc)),
                (''filepath'', JStr (filepath doc)),
                (''uploadedBy'', JId A),
                (''code'', JStr c),
                (''uploadedAt'', JDate (uploadedAt doc)),
                (''__v'', JNum 0)]"
    if "doc \<in> set (files_of st A)" for doc
  proof -
    from that have m: "doc \<in> set (Files st)" and o: "uploadedBy doc = A"
      by (simp_all add: files_of_def find_all_def)
    from reachable_files_ok[OF assms(1)] m obtain c where "code doc = Some c"
      unfolding files_ok_def by blast
    with o show ?thesis by (simp add: file_toJSON_def)
  qed
  with assms(2) show ?thesis by (simp add: get_files_def)
qed

theorem list_files_full_documents_witness:
  "reachable plain_libs ''s3cret'' example_db
   \<and> authMiddleware plain_libs ''s3cret'' (Some ''Bearer s3cret.'') = Inr 0
   \<and> get_files plain_libs ''s3cret'' example_db (Some ''Bearer s3cret.'')
       = Json 200 (JArr (map file_toJSON (Files example_db)))
   \<and> map (keys_of \<circ> file_toJSON) (files_of example_db 0)
       = [[''_id'', ''filename'', ''filepath'', ''uploadedBy'', ''code'', ''uploadedAt'', ''__v'']]"
proof -
  have "files_of example_db 0 = Files example_db"
    by (simp add: files_of_def find_all_def example_db_eq)
  with list_files_full_documents[OF reachable_example auth_alice] reachable_example auth_alice
  show ?thesis by (simp add: example_db_eq file_toJSON_def)
qed

theorem list_files_shape_counterexample:
  "get_files plain_libs ''s3cret'' example_db (Some ''Bearer s3cret.'')
     = Json 200 (JArr [JObj
         [(''_id'', JId 2),
          (''filename'', JStr ''1700-a.txt''),
          (''filepath'', JStr ''uploads/1700-a.txt''),
          (''uploadedBy'', JId 0),
          (''code'', JStr ''550000''),
          (''uploadedAt'', JDate 1701),
          (''__v'', JNum 0)]])"
  by (simp add: get_files_def auth_alice files_of_def find_all_def example_db_eq file_toJSON_def)

subsection \<open>Registration and login\<close>

lemma split_no_sep: "c \<notin> set t \<Longrightarrow> split c t = [t]"
  by (induction t) auto

lemma bearer_token:
  "CHR '' '' \<notin> set t \<Longrightarrow> index (split CHR '' '' (''Bearer '' @ t)) 1 = Some t"
  by (simp add: split_no_sep)

lemma plain_libs_ok: "libs_ok plain_libs ''s3cret''"
  by (simp add: libs_ok_def plain_libs_def)

text \<open>
  C4, as the code has it. The handler of \<^verbatim>\<open>/register\<close> has no uniqueness check: for a
  username that a user already has, the request gets 200 \<^verbatim>\<open>{message: "User registered"}\<close>
  and one more user record with that username is stored.
\<close>

theorem register_duplicate:
  assumes "u \<in> set (Users st)" and "username u = uname"
    and "post_register L st uname pw salt = (resp, st')"
  shows "resp = Json 200 (message_body ''User registered'')
       \<and> (\<exists>user. Users st' = Users st @ [user] \<and> username user = uname
             \<and> user_id user = next_id st)
       \<and> length (find_all (\<lambda>v. username v = uname) (Users st'))
           = Suc (length (find_all (\<lambda>v. username v = uname) (Users st)))"
  using assms(3) by (auto simp: post_register_def Let_def find_all_def)

theorem register_duplicate_witness:
  "\<lparr>user_id = 0, username = ''alice'', password = ''$p@ss1''\<rparr> \<in> set (Users example_db)
   \<and> fst (post_register plain_libs example_db ''alice'' ''other'' 13)
       = Json 200 (message_body ''User registered'')
   \<and> length (find_all (\<lambda>v. username v = ''alice'')
         (Users (snd (post_register plain_libs example_db ''alice'' ''other'' 13)))) = 2"
proof -
  let ?r = "post_register plain_libs example_db ''alice'' ''other'' 13"
  have m: "\<lparr>user_id = 0, username = ''alice'', password = ''$p@ss1''\<rparr> \<in> set (Users example_db)"
    by (simp add: example_db_eq)
  have r: "?r = (fst ?r, snd ?r)" by simp
  have "length (find_all (\<lambda>v. username v = ''alice'') (Users example_db)) = 1"
    by (simp add: example_db_eq find_all_def)
  with register_duplicate[OF m _ r] m show ?thesis by simp
qed

theorem register_duplicate_counterexample:
  "map username (Users example_db) = [''alice'', ''bob'']
   \<and> fst (post_register plain_libs example_db ''alice'' ''other'' 13)
       = Json 200 (message_body ''User registered'')
   \<and> map username (Users (snd (post_register plain_libs example_db ''alice'' ''other'' 13)))
       = [''alice'', ''bob'', ''alice'']"
  by (simp add: example_db_eq post_register_def Let_def)

text \<open>
  C5, as the code has it. A failed login has status 401 in both cases, and the body tells
  them apart: \<^verbatim>\<open>{error: "User not found"}\<close> when no user has the username,
  \<^verbatim>\<open>{error: "Invalid password"}\<close> when the first user with the username has another
  password.
\<close>

theorem login_failures:
  "(findOne (\<lambda>u. username u = uname) (Users st) = None \<longrightarrow>
      post_login L secret st uname pw now = Json 401 (error_body ''User not found''))
   \<and> (\<forall>user. findOne (\<lambda>u. username u = uname) (Users st) = Some user
         \<and> \<not> bcrypt_compare L pw (password user) \<longrightarrow>
      post_login L secret st uname pw now = Json 401 (error_body ''Invalid password''))
   \<and> error_body ''User not found'' \<noteq> error_body ''Invalid password''"
  by (simp add: post_login_def error_body_def)

theorem login_failures_witness:
  "findOne (\<lambda>u. username u = ''carol'') (Users example_db) = None
   \<and> post_login plain_libs ''s3cret'' example_db ''carol'' ''wrong'' 5
       = Json 401 (error_body ''User not found'')
   \<and> findOne (\<lambda>u. username u = ''alice'') (Users example_db)
       = Some \<lparr>user_id = 0, username = ''alice'', password = ''$p@ss1''\<rparr>
   \<and> \<not> bcrypt_compare plain_libs ''wrong'' ''$p@ss1''
   \<and> post_login plain_libs ''s3cret'' example_db ''alice'' ''wrong'' 5
       = Json 401 (error_body ''Invalid password'')"
proof -
  have a: "findOne (\<lambda>u. username u = ''carol'') (Users example_db) = None"
    and b: "findOne (\<lambda>u. username u = ''alice'') (Users example_db)
       = Some \<lparr>user_id = 0, username = ''alice'', password = ''$p@ss1''\<rparr>"
    and c: "\<not> bcrypt_compare plain_libs ''wrong'' ''$p@ss1''"
    by (simp_all add: example_db_eq plain_libs_simps)
  from a login_failures[of "''carol''" example_db plain_libs "''s3cret''" "''wrong''" 5]
  have "post_login plain_libs ''s3cret'' example_db ''carol'' ''wrong'' 5
       = Json 401 (error_body ''User not found'')" by blast
  moreover from b c login_failures[of "''alice''" example_db plain_libs "''s3cret''" "''wrong''" 5]
  have "post_login plain_libs ''s3cret'' example_db ''alice'' ''wrong'' 5
       = Json 401 (error_body ''Invalid password'')" by simp
  ultimately show ?thesis using a b c by simp
qed

theorem login_failures_counterexample:
  "post_login plain_libs ''s3cret'' example_db ''carol'' ''wrong'' 5
     = Json 401 (JObj [(''error'', JStr ''User not found'')])
   \<and> post_login plain_libs ''s3cret'' example_db ''alice'' ''wrong'' 5
     = Json 401 (JObj [(''error'', JStr ''Invalid password'')])
   \<and> post_login plain_libs ''s3cret'' example_db ''carol'' ''wrong'' 5
     \<noteq> post_login plain_libs ''s3cret'' example_db ''alice'' ''wrong'' 5"
  by (simp add: post_login_def example_db_eq plain_libs_simps error_body_def)

text \<open>
  C2, as the code has it. When no user has the username yet, and the libraries are as
  assumed, \<^verbatim>\<open>/register\<close> followed by \<^verbatim>\<open>/login\<close> with the same credentials returns a
  token that verifies, in \<^verbatim>\<open>jwt.verify\<close> and in \<^verbatim>\<open>authMiddleware\<close>, to the id of the
  user that the registration created.
\<close>

theorem register_then_login:
  assumes "libs_ok L secret" and "\<forall>u \<in> set (Users st). username u \<noteq> uname"
    and "post_register L st uname pw salt = (resp, st')"
  shows "resp = Json 200 (message_body ''User registered'')
       \<and> (\<exists>user tok. Users st' = Users st @ [user] \<and> username user = uname
             \<and> post_login L secret st' uname pw now = Json 200 (JObj [(''token'', JStr tok)])
             \<and> jwt_verify L tok secret = Some (user_id user)
             \<and> authMiddleware L secret (Some (''Bearer '' @ tok)) = Inr (user_id user))"
proof -
  define user where
    "user = \<lparr>user_id = next_id st, username = uname, password = bcrypt_hash L pw salt\<rparr>"
  define tok where "tok = jwt_sign L (user_id user) now secret"
  from assms(3) have r: "resp = Json 200 (message_body ''User registered'')"
    and u: "Users st' = Users st @ [user]"
    by (auto simp: post_register_def Let_def user_def)
  from assms(2) have "findOne (\<lambda>u. username u = uname) (Users st) = None"
    by (simp add: findOne_None)
  with u have f: "findOne (\<lambda>u. username u = uname) (Users st') = Some user"
    by (simp add: findOne_append user_def)
  from assms(1) have c: "bcrypt_compare L pw (password user)"
    by (simp add: libs_ok_def user_def)
  from f c have l: "post_login L secret st' uname pw now = Json 200 (JObj [(''token'', JStr tok)])"
    by (simp add: post_login_def tok_def)
  from assms(1) have v: "jwt_verify L tok secret = Some (user_id user)"
    and ne: "tok \<noteq> []" and sp: "CHR '' '' \<notin> set tok"
    by (simp_all add: libs_ok_def tok_def)
  from bearer_token[OF sp] ne v
  have "authMiddleware L secret (Some (''Bearer '' @ tok)) = Inr (user_id user)"
    by (simp add: authMiddleware_def)
  with r u l v show ?thesis by (auto simp: user_def)
qed

theorem register_then_login_witness:
  "libs_ok plain_libs ''s3cret''
   \<and> ''carol'' \<notin> set (map username (Users example_db))
   \<and> fst (post_register plain_libs example_db ''carol'' ''pw3'' 13)
       = Json 200 (message_body ''User registered'')
   \<and> post_login plain_libs ''s3cret'' (snd (post_register plain_libs example_db ''carol'' ''pw3'' 13))
         ''carol'' ''pw3'' 14 = Json 200 (JObj [(''token'', JStr ''s3cret.xxx'')])
   \<and> authMiddleware plain_libs ''s3cret'' (Some ''Bearer s3cret.xxx'') = Inr 3"
proof -
  let ?r = "post_register plain_libs example_db ''carol'' ''pw3'' 13"
  have n: "\<forall>u \<in> set (Users example_db). username u \<noteq> ''carol''"
    by (simp add: example_db_eq)
  have r: "?r = (fst ?r, snd ?r)" by simp
  from register_then_login[OF plain_libs_ok n r, of 14] obtain user tok
    where a: "fst ?r = Json 200 (message_body ''User registered'')"
      and b: "Users (snd ?r) = Users example_db @ [user]"
      and c: "post_login plain_libs ''s3cret'' (snd ?r) ''carol'' ''pw3'' 14
                = Json 200 (JObj [(''token'', JStr tok)])"
      and d: "authMiddleware plain_libs ''s3cret'' (Some (''Bearer '' @ tok)) = Inr (user_id user)"
    by blast
  from b have "user_id user = 3" by (auto simp: post_register_def Let_def example_db_eq)
  moreover from c have "tok = ''s3cret.xxx''"
    by (simp add: post_login_def post_register_def Let_def example_db_eq plain_libs_simps
        numeral_3_eq_3)
  moreover have "''carol'' \<notin> set (map username (Users example_db))"
    by (simp add: example_db_eq)
  ultimately show ?thesis using a c d plain_libs_ok by simp
qed

theorem register_then_login_counterexample:
  "libs_ok plain_libs ''s3cret''
   \<and> fst (post_register plain_libs example_db ''alice'' ''other'' 13)
       = Json 200 (message_body ''User registered'')
   \<and> post_login plain_libs ''s3cret'' (snd (post_register plain_libs example_db ''alice'' ''other'' 13))
         ''alice'' ''other'' 14 = Json 401 (error_body ''Invalid password'')"
  by (simp add: plain_libs_ok post_register_def Let_def example_db_eq post_login_def
      plain_libs_simps)

end
